theory Spec2Isabelle
  imports Main
begin

section \<open>The scaffolding script \<^verbatim>\<open>scripts/new_component.py\<close>\<close>

text \<open>
  The script builds two \<^verbatim>\<open>pathlib.Path\<close> values from its command line, asks the
  file system whether they exist, creates directories and files, and prints one line per
  file. The embedding has three layers:
  \<^item> pure paths, as \<^verbatim>\<open>pathlib.PurePosixPath\<close> of CPython 3.11 parses and prints them;
  \<^item> a file system of regular files and directories with the path resolution of POSIX,
    and the standard output as the list of the lines printed;
  \<^item> the three functions of the script, with every exception as a value: a call
    returns its outcome, \<open>Inl\<close> of the exception raised or \<open>Inr ()\<close>, and the world it
    leaves behind.

  The file system is the part of the real one that the script can tell apart by the
  entries it finds. Outside the model are symbolic links, permissions, and the names the
  operating system refuses: for a component longer than \<^verbatim>\<open>NAME_MAX\<close> or a path longer
  than \<^verbatim>\<open>PATH_MAX\<close> the real calls raise \<^verbatim>\<open>OSError\<close> (\<^verbatim>\<open>ENAMETOOLONG\<close>), which
  \<^verbatim>\<open>Path.exists\<close> lets through, and for a name with a NUL byte \<^verbatim>\<open>os.mkdir\<close> and
  \<^verbatim>\<open>open\<close> raise \<^verbatim>\<open>ValueError\<close>; the model's calls do not. At such a name the model
  returns where the script raises. The statements below about a directory or a file
  that gets created are therefore about the runs that return, and the statements about
  a call that returns at once are about paths that exist, whose names the operating
  system has accepted.
\<close>

subsection \<open>Strings\<close>

definition sep :: char where
  "sep = CHR ''/''"

text \<open>\<^verbatim>\<open>s.split(c)\<close> for a separator of one character.\<close>

fun split_str :: "char \<Rightarrow> string \<Rightarrow> string list" where
  "split_str c [] = [[]]"
| "split_str c (x # xs) =
     (if x = c then [] # split_str c xs
      else (case split_str c xs of
              [] \<Rightarrow> [[x]]
            | w # ws \<Rightarrow> (x # w) # ws))"

text \<open>\<^verbatim>\<open>s.join(xs)\<close>.\<close>

fun join :: "string \<Rightarrow> string list \<Rightarrow> string" where
  "join s [] = []"
| "join s [x] = x"
| "join s (x # y # ys) = x @ s @ join s (y # ys)"

text \<open>\<^verbatim>\<open>s.replace(old, new)\<close> for \<^verbatim>\<open>old\<close> and \<^verbatim>\<open>new\<close> of one character each.\<close>

definition replace :: "string \<Rightarrow> char \<Rightarrow> char \<Rightarrow> string" where
  "replace s old new = map (\<lambda>c. if c = old then new else c) s"

text \<open>\<^verbatim>\<open>s.rfind(c)\<close>: the index of the last occurrence of \<^verbatim>\<open>c\<close>, or \<open>-1\<close>.\<close>

fun rfind :: "string \<Rightarrow> char \<Rightarrow> int" where
  "rfind [] c = - 1"
| "rfind (x # xs) c =
     (let r = rfind xs c
      in if 0 \<le> r then r + 1 else if x = c then 0 else - 1)"

subsection \<open>Pure paths\<close>

text \<open>
  A POSIX pure path is its root (\<^verbatim>\<open>''\<close>, \<^verbatim>\<open>/\<close> or \<^verbatim>\<open>//\<close>) and the components after it.
  There is no drive on POSIX.
\<close>

datatype path = PurePath (root: string) (parts: "string list")

datatype exn =
    FileExistsError
  | FileNotFoundError
  | NotADirectoryError
  | IsADirectoryError
  | ValueError
  | SystemExit int

text \<open>
  \<^verbatim>\<open>_PosixFlavour.splitroot\<close>: exactly two leading slashes are kept as the root, any
  other number of them is one slash.
\<close>

definition splitroot :: "string \<Rightarrow> string \<times> string" where
  "splitroot part =
     (if part \<noteq> [] \<and> hd part = sep then
        (let stripped_part = dropWhile (\<lambda>c. c = sep) part
         in if length part - length stripped_part = 2
            then ([sep, sep], stripped_part)
            else ([sep], stripped_part))
      else ([], part))"

text \<open>
  \<^verbatim>\<open>Path(s)\<close> for one string (\<^verbatim>\<open>parse_parts\<close>): empty components and \<^verbatim>\<open>.\<close> are
  dropped, \<^verbatim>\<open>..\<close> is kept.
\<close>

definition Path :: "string \<Rightarrow> path" where
  "Path s =
     (case splitroot s of
        (rt, rel) \<Rightarrow> PurePath rt (filter (\<lambda>x. x \<noteq> [] \<and> x \<noteq> ''.'') (split_str sep rel)))"

text \<open>\<^verbatim>\<open>str(path)\<close>, which is what an f-string prints.\<close>

definition str :: "path \<Rightarrow> string" where
  "str p =
     (let s = root p @ join [sep] (parts p)
      in if s = [] then ''.'' else s)"

definition as_posix :: "path \<Rightarrow> string" where
  "as_posix p = replace (str p) sep (CHR ''/'')"

definition name :: "path \<Rightarrow> string" where
  "name p = (if parts p = [] then [] else last (parts p))"

definition suffix :: "path \<Rightarrow> string" where
  "suffix p =
     (let nm = name p; i = rfind nm (CHR ''.'')
      in if 0 < i \<and> i < int (length nm) - 1 then drop (nat i) nm else [])"

definition parent :: "path \<Rightarrow> path" where
  "parent p = (if parts p = [] then p else PurePath (root p) (butlast (parts p)))"

definition with_suffix :: "path \<Rightarrow> string \<Rightarrow> exn + path" where
  "with_suffix p sfx =
     (if sep \<in> set sfx then Inl ValueError
      else if (sfx \<noteq> [] \<and> hd sfx \<noteq> CHR ''.'') \<or> sfx = ''.'' then Inl ValueError
      else
        (let nm = name p
         in if nm = [] then Inl ValueError
            else
              (let old_suffix = suffix p;
                   nm' = (if old_suffix = [] then nm @ sfx
                          else take (length nm - length old_suffix) nm @ sfx)
               in Inr (PurePath (root p) (butlast (parts p) @ [nm'])))))"

text \<open>
  The expression bound to \<^verbatim>\<open>module\<close> in \<^verbatim>\<open>main\<close>:
  \<^verbatim>\<open>lean_path.with_suffix("").as_posix().replace("/", ".")\<close>.
\<close>

definition module_identifier :: "path \<Rightarrow> exn + string" where
  "module_identifier lean_path =
     (case with_suffix lean_path [] of
        Inl e \<Rightarrow> Inl e
      | Inr q \<Rightarrow> Inr (replace (as_posix q) (CHR ''/'') (CHR ''.'')))"

subsection \<open>The file system and the standard output\<close>

datatype node = File string | Dir

text \<open>
  An entry lives at a canonical location: the names from the root directory down to it.
  The root directory is the empty location and always exists.
\<close>

record world =
  files :: "string list \<Rightarrow> node option"
  cwd :: "string list"
  stdout :: "string list"

definition entry :: "(string list \<Rightarrow> node option) \<Rightarrow> string list \<Rightarrow> node option" where
  "entry fs k = (if k = [] then Some Dir else fs k)"

definition step :: "string list \<Rightarrow> string \<Rightarrow> string list" where
  "step cur c =
     (if c = ''..'' then butlast cur
      else if c = ''.'' \<or> c = [] then cur
      else cur @ [c])"

text \<open>
  Path resolution: every component is looked up in a directory, so the location reached
  before it must be one. The location of the last component may be vacant.
\<close>

fun walk :: "(string list \<Rightarrow> node option) \<Rightarrow> string list \<Rightarrow> string list \<Rightarrow> exn + string list" where
  "walk fs cur [] = Inr cur"
| "walk fs cur (c # cs) =
     (case entry fs cur of
        None \<Rightarrow> Inl FileNotFoundError
      | Some (File d) \<Rightarrow> Inl NotADirectoryError
      | Some Dir \<Rightarrow> walk fs (step cur c) cs)"

text \<open>A relative path starts at the working directory, an absolute one at the root.\<close>

definition anchor :: "world \<Rightarrow> path \<Rightarrow> string list" where
  "anchor w p = (if root p = [] then cwd w else [])"

definition resolve :: "world \<Rightarrow> path \<Rightarrow> exn + string list" where
  "resolve w p = walk (files w) (anchor w p) (parts p)"

definition stat :: "world \<Rightarrow> path \<Rightarrow> exn + node" where
  "stat w p =
     (case resolve w p of
        Inl e \<Rightarrow> Inl e
      | Inr k \<Rightarrow> (case entry (files w) k of
                    None \<Rightarrow> Inl FileNotFoundError
                  | Some n \<Rightarrow> Inr n))"

text \<open>
  \<^verbatim>\<open>Path.exists\<close> and \<^verbatim>\<open>Path.is_dir\<close> answer \<^verbatim>\<open>False\<close> on the errors \<^verbatim>\<open>stat\<close> can
  raise here (\<^verbatim>\<open>ENOENT\<close>, \<^verbatim>\<open>ENOTDIR\<close>). The real ones raise any other \<^verbatim>\<open>OSError\<close>
  again; \<^verbatim>\<open>stat\<close> raises none here.
\<close>

definition exists :: "world \<Rightarrow> path \<Rightarrow> bool" where
  "exists w p = (case stat w p of Inl e \<Rightarrow> False | Inr n \<Rightarrow> True)"

definition is_dir :: "world \<Rightarrow> path \<Rightarrow> bool" where
  "is_dir w p = (case stat w p of Inl e \<Rightarrow> False | Inr n \<Rightarrow> n = Dir)"

text \<open>\<^verbatim>\<open>os.mkdir\<close>: one directory, whose parent must exist.\<close>

definition os_mkdir :: "path \<Rightarrow> world \<Rightarrow> (exn + unit) \<times> world" where
  "os_mkdir p w =
     (case resolve w p of
        Inl e \<Rightarrow> (Inl e, w)
      | Inr k \<Rightarrow> (case entry (files w) k of
                    Some n \<Rightarrow> (Inl FileExistsError, w)
                  | None \<Rightarrow> (Inr (), w\<lparr>files := (files w)(k \<mapsto> Dir)\<rparr>)))"

text \<open>
  \<^verbatim>\<open>Path.mkdir(parents, exist_ok)\<close>, as pathlib writes it: try \<^verbatim>\<open>os.mkdir\<close>; on
  \<^verbatim>\<open>FileNotFoundError\<close> make the parents and try once more; on any other error give up
  unless \<^verbatim>\<open>exist_ok\<close> holds and the path is a directory.
\<close>

function mkdir :: "path \<Rightarrow> bool \<Rightarrow> bool \<Rightarrow> world \<Rightarrow> (exn + unit) \<times> world" where
  "mkdir p parents exist_ok w =
     (case os_mkdir p w of
        (Inr u, w1) \<Rightarrow> (Inr (), w1)
      | (Inl e, w1) \<Rightarrow>
          if e = FileNotFoundError then
            (if \<not> parents \<or> parent p = p then (Inl e, w1)
             else (case mkdir (parent p) True True w1 of
                     (Inl e', w2) \<Rightarrow> (Inl e', w2)
                   | (Inr u, w2) \<Rightarrow> mkdir p False exist_ok w2))
          else if \<not> exist_ok \<or> \<not> is_dir w1 p then (Inl e, w1)
          else (Inr (), w1))"
  by pat_completeness auto
termination
  by (relation "measures [\<lambda>(p, parents, exist_ok, w). length (parts p),
                          \<lambda>(p, parents, exist_ok, w). if parents then 1 else 0]")
     (auto simp: parent_def split: if_splits)

declare mkdir.simps [simp del]

text \<open>
  \<^verbatim>\<open>Path.write_text\<close>: \<^verbatim>\<open>open(path, 'w')\<close> creates the file or truncates it, and fails
  on a directory.
\<close>

definition write_text :: "path \<Rightarrow> string \<Rightarrow> world \<Rightarrow> (exn + unit) \<times> world" where
  "write_text p data w =
     (case resolve w p of
        Inl e \<Rightarrow> (Inl e, w)
      | Inr k \<Rightarrow> (case entry (files w) k of
                    Some Dir \<Rightarrow> (Inl IsADirectoryError, w)
                  | _ \<Rightarrow> (Inr (), w\<lparr>files := (files w)(k \<mapsto> File data)\<rparr>)))"

definition print :: "string \<Rightarrow> world \<Rightarrow> (exn + unit) \<times> world" where
  "print line w = (Inr (), w\<lparr>stdout := stdout w @ [line]\<rparr>)"

definition sys_exit :: "int \<Rightarrow> world \<Rightarrow> (exn + unit) \<times> world" where
  "sys_exit n w = (Inl (SystemExit n), w)"

subsection \<open>The script\<close>

definition lean_content :: string where
  "lean_content =
     ''/--\<newline>'' @
     ''  TODO: add description.\<newline>'' @
     ''-/\<newline>'' @
     ''import Mathlib\<newline>\<newline>'' @
     ''namespace Thesis\<newline>\<newline>'' @
     ''-- TODO: definitions and theorems.\<newline>\<newline>'' @
     ''end Thesis\<newline>''"

definition write_lean_file :: "path \<Rightarrow> world \<Rightarrow> (exn + unit) \<times> world" where
  "write_lean_file p w =
     (if exists w p then print (str p @ '' already exists'') w
      else
        (case mkdir (parent p) True True w of
           (Inl e, w1) \<Rightarrow> (Inl e, w1)
         | (Inr u, w1) \<Rightarrow>
             (case write_text p lean_content w1 of
                (Inl e, w2) \<Rightarrow> (Inl e, w2)
              | (Inr u, w2) \<Rightarrow> print (''Created '' @ str p) w2)))"

definition test_content :: "string \<Rightarrow> string" where
  "test_content module =
     ''import '' @ module @ ''\<newline>\<newline>'' @
     ''-- TODO: add tests for '' @ module @ ''.\<newline>''"

definition write_test_file :: "path \<Rightarrow> string \<Rightarrow> world \<Rightarrow> (exn + unit) \<times> world" where
  "write_test_file p module w =
     (if exists w p then print (str p @ '' already exists'') w
      else
        (case mkdir (parent p) True True w of
           (Inl e, w1) \<Rightarrow> (Inl e, w1)
         | (Inr u, w1) \<Rightarrow>
             (case write_text p (test_content module) w1 of
                (Inl e, w2) \<Rightarrow> (Inl e, w2)
              | (Inr u, w2) \<Rightarrow> print (''Created '' @ str p) w2)))"

definition usage :: string where
  "usage = ''Usage: new_component.py path/to/File.lean [tests/Path.lean]''"

text \<open>\<^verbatim>\<open>argv\<close> is \<^verbatim>\<open>sys.argv\<close>: the program's name, then its arguments.\<close>

definition main :: "string list \<Rightarrow> world \<Rightarrow> (exn + unit) \<times> world" where
  "main argv w =
     (if length argv < 2 then
        (case print usage w of
           (Inl e, w1) \<Rightarrow> (Inl e, w1)
         | (Inr u, w1) \<Rightarrow> sys_exit 1 w1)
      else
        (let lean_path = Path (argv ! 1)
         in case write_lean_file lean_path w of
              (Inl e, w1) \<Rightarrow> (Inl e, w1)
            | (Inr u, w1) \<Rightarrow>
                if 2 < length argv then
                  (case module_identifier lean_path of
                     Inl e \<Rightarrow> (Inl e, w1)
                   | Inr module \<Rightarrow> write_test_file (Path (argv ! 2)) module w1)
                else (Inr (), w1)))"

text \<open>
  The status the process ends with: 0 when \<^verbatim>\<open>main\<close> returns, the argument of
  \<^verbatim>\<open>sys.exit\<close>, and 1 when any other exception reaches the top.
\<close>

definition exit_status :: "exn + unit \<Rightarrow> int" where
  "exit_status r =
     (case r of
        Inr u \<Rightarrow> 0
      | Inl (SystemExit n) \<Rightarrow> n
      | Inl e \<Rightarrow> 1)"

subsection \<open>Notions used in the statements\<close>

text \<open>
  The body the two writers share, with the content as a parameter: what is proved of it
  holds of \<open>write_lean_file\<close> and of \<open>write_test_file\<close>.
\<close>

definition write_file :: "path \<Rightarrow> string \<Rightarrow> world \<Rightarrow> (exn + unit) \<times> world" where
  "write_file p content w =
     (if exists w p then print (str p @ '' already exists'') w
      else
        (case mkdir (parent p) True True w of
           (Inl e, w1) \<Rightarrow> (Inl e, w1)
         | (Inr u, w1) \<Rightarrow>
             (case write_text p content w1 of
                (Inl e, w2) \<Rightarrow> (Inl e, w2)
              | (Inr u, w2) \<Rightarrow> print (''Created '' @ str p) w2)))"

text \<open>
  \<^verbatim>\<open>PurePath.stem\<close>: the final component without its last suffix. A dot that starts or
  ends the name does not open a suffix.
\<close>

definition stem :: "string \<Rightarrow> string" where
  "stem nm =
     (let i = rfind nm (CHR ''.'')
      in if 0 < i \<and> i < int (length nm) - 1 then take (nat i) nm else nm)"

text \<open>What \<open>Path\<close> keeps as one component of a path string.\<close>

definition component :: "string \<Rightarrow> bool" where
  "component c = (c \<noteq> [] \<and> c \<noteq> ''.'' \<and> sep \<notin> set c)"


text \<open>
  The second world has the entries of the first, unchanged, and possibly new
  directories; working directory and output are the same.
\<close>

definition grows :: "world \<Rightarrow> world \<Rightarrow> bool" where
  "grows w w' =
     (cwd w' = cwd w \<and> stdout w' = stdout w \<and>
      (\<forall>k. files w' k = files w k \<or> (files w k = None \<and> files w' k = Some Dir)))"

text \<open>
  A small world for the concrete cases: the working directory \<^verbatim>\<open>/home\<close> holds a
  directory \<^verbatim>\<open>docs\<close>, a regular file \<^verbatim>\<open>f.lean\<close> whose content is not the template, and
  a regular file \<^verbatim>\<open>notes\<close>.
\<close>

definition sample_world :: world where
  "sample_world =
     \<lparr>files = Map.empty([''home''] \<mapsto> Dir, [''home'', ''docs''] \<mapsto> Dir,
                        [''home'', ''f.lean''] \<mapsto> File ''orig'',
                        [''home'', ''notes''] \<mapsto> File ''x''),
      cwd = [''home''], stdout = []\<rparr>"

section \<open>Lemmas\<close>

subsection \<open>Strings\<close>

lemma split_str_no_sep: "c \<notin> set s \<Longrightarrow> split_str c s = [s]"
  by (induction s) auto

lemma split_str_append:
  "c \<notin> set x \<Longrightarrow> split_str c (x @ c # s) = x # split_str c s"
  by (induction x) auto

lemma join_Cons: "join s (x # xs) = (if xs = [] then x else x @ s @ join s xs)"
  by (cases xs) auto

lemma split_str_join:
  "cs \<noteq> [] \<Longrightarrow> \<forall>x \<in> set cs. c \<notin> set x \<Longrightarrow> split_str c (join [c] cs) = cs"
proof (induction cs)
  case Nil
  then show ?case by simp
next
  case (Cons x xs)
  then show ?case
    by (cases "xs = []") (simp_all add: join_Cons split_str_no_sep split_str_append)
qed

lemma replace_append: "replace (xs @ ys) a b = replace xs a b @ replace ys a b"
  by (simp add: replace_def)

lemma replace_absent: "a \<notin> set s \<Longrightarrow> replace s a b = s"
  by (induction s) (auto simp: replace_def)

lemma replace_join:
  "\<forall>x \<in> set cs. a \<notin> set x \<Longrightarrow> replace (join [a] cs) a b = join [b] cs"
proof (induction cs)
  case Nil
  then show ?case by (simp add: replace_def)
next
  case (Cons x xs)
  then show ?case
    by (cases "xs = []") (simp_all add: join_Cons replace_append replace_absent, simp add: replace_def)
qed

lemma rfind_absent: "c \<notin> set s \<Longrightarrow> rfind s c = - 1"
  by (induction s) (auto simp: Let_def)

lemma rfind_bounds: "- 1 \<le> rfind s c \<and> rfind s c < int (length s)"
  by (induction s) (auto simp: Let_def)

lemma rfind_last: "c \<notin> set e \<Longrightarrow> rfind (b @ c # e) c = int (length b)"
  by (induction b) (auto simp: Let_def rfind_absent)

subsection \<open>Pure paths\<close>

lemma stem_no_dot: "CHR ''.'' \<notin> set nm \<Longrightarrow> stem nm = nm"
  by (simp add: stem_def rfind_absent)

lemma stem_ext:
  "CHR ''.'' \<notin> set e \<Longrightarrow> b \<noteq> [] \<Longrightarrow> e \<noteq> [] \<Longrightarrow> stem (b @ ''.'' @ e) = b"
  using rfind_last[of "CHR ''.''" e b] by (simp add: stem_def Let_def)

lemma stem_nonempty: "nm \<noteq> [] \<Longrightarrow> stem nm \<noteq> []"
  by (auto simp: stem_def Let_def)

lemma set_stem: "set (stem nm) \<subseteq> set nm"
  by (auto simp: stem_def Let_def dest: in_set_takeD)

lemma with_suffix_empty:
  "nm \<noteq> [] \<Longrightarrow> with_suffix (PurePath r (ds @ [nm])) [] = Inr (PurePath r (ds @ [stem nm]))"
  using rfind_bounds[of nm "CHR ''.''"]
  by (auto simp: with_suffix_def name_def suffix_def stem_def Let_def sep_def)

lemma with_suffix_no_name: "with_suffix (PurePath r []) [] = Inl ValueError"
  by (simp add: with_suffix_def name_def sep_def)

lemma join_nonempty: "cs \<noteq> [] \<Longrightarrow> \<forall>c \<in> set cs. c \<noteq> [] \<Longrightarrow> join s cs \<noteq> []"
  by (cases cs) (auto simp: join_Cons)

lemma splitroot_join:
  assumes "cs \<noteq> []" and "\<forall>c \<in> set cs. component c"
    and "r = [] \<or> r = [sep] \<or> r = [sep, sep]"
  shows "splitroot (r @ join [sep] cs) = (r, join [sep] cs)"
proof -
  obtain c cs' where cs: "cs = c # cs'" using assms(1) by (cases cs) auto
  obtain x c' where c: "c = x # c'" "x \<noteq> sep"
    using assms(2) cs by (cases c) (auto simp: component_def)
  have j: "join [sep] cs = x # (c' @ (if cs' = [] then [] else [sep] @ join [sep] cs'))"
    by (simp add: cs c join_Cons)
  show ?thesis
    using assms(3) c(2) unfolding j by (auto simp: splitroot_def Let_def)
qed

lemma Path_join:
  assumes "cs \<noteq> []" and "\<forall>c \<in> set cs. component c"
    and "r = [] \<or> r = [sep] \<or> r = [sep, sep]"
  shows "Path (r @ join [sep] cs) = PurePath r cs"
proof -
  have "split_str sep (join [sep] cs) = cs"
    using assms(1,2) by (intro split_str_join) (auto simp: component_def)
  moreover have "filter (\<lambda>x. x \<noteq> [] \<and> x \<noteq> ''.'') cs = cs"
    using assms(2) by (auto simp: component_def filter_id_conv)
  ultimately show ?thesis
    by (simp add: Path_def splitroot_join[OF assms])
qed

lemma replace_same: "replace s a a = s"
  by (induction s) (auto simp: replace_def)

lemma module_identifier_parts:
  assumes "\<forall>c \<in> set (ds @ [nm]). component c"
  shows "module_identifier (PurePath r (ds @ [nm])) =
         Inr (replace r sep (CHR ''.'') @ join ''.'' (ds @ [stem nm]))"
proof -
  have nm: "nm \<noteq> []" using assms by (auto simp: component_def)
  have clean: "\<forall>x \<in> set (ds @ [stem nm]). sep \<notin> set x"
    using assms set_stem[of nm] by (auto simp: component_def)
  have ne: "join [sep] (ds @ [stem nm]) \<noteq> []"
    using assms stem_nonempty[OF nm] by (intro join_nonempty) (auto simp: component_def)
  have "str (PurePath r (ds @ [stem nm])) = r @ join [sep] (ds @ [stem nm])"
    using ne by (simp add: str_def Let_def)
  then show ?thesis
    using replace_join[OF clean, of "CHR ''.''"]
    by (simp add: module_identifier_def with_suffix_empty[OF nm] as_posix_def
        replace_append replace_same sep_def)
qed

subsection \<open>Path resolution and growth of the file system\<close>

lemma anchor_files [simp]: "anchor (w\<lparr>files := f\<rparr>) p = anchor w p"
  by (simp add: anchor_def)

lemma anchor_stdout [simp]: "anchor (w\<lparr>stdout := out\<rparr>) p = anchor w p"
  by (simp add: anchor_def)

lemma anchor_parent [simp]: "anchor w (parent p) = anchor w p"
  by (simp add: anchor_def parent_def)

lemma anchor_root [simp]: "anchor w (PurePath (root p) ds) = anchor w p"
  by (simp add: anchor_def)

lemma grows_refl: "grows w w"
  by (simp add: grows_def)

lemma grows_trans: "grows w1 w2 \<Longrightarrow> grows w2 w3 \<Longrightarrow> grows w1 w3"
  unfolding grows_def by (metis option.distinct(1))

lemma entry_Dir_upd: "entry fs k = Some Dir \<Longrightarrow> entry fs j \<noteq> Some Dir \<Longrightarrow> entry (fs(j \<mapsto> v)) k = Some Dir"
  by (auto simp: entry_def split: if_splits)


lemma walk_upd:
  "walk fs cur cs = Inr k \<Longrightarrow> entry fs j \<noteq> Some Dir \<Longrightarrow> walk (fs(j \<mapsto> v)) cur cs = Inr k"
proof (induction cs arbitrary: cur)
  case Nil
  then show ?case by simp
next
  case (Cons c cs)
  from Cons.prems(1) have d: "entry fs cur = Some Dir"
    by (auto split: option.splits node.splits)
  then have d': "entry (fs(j \<mapsto> v)) cur = Some Dir"
    using Cons.prems(2) by (rule entry_Dir_upd)
  from Cons.prems(1) d have "walk fs (step cur c) cs = Inr k"
    by simp
  then have "walk (fs(j \<mapsto> v)) (step cur c) cs = Inr k"
    using Cons.prems(2) by (rule Cons.IH)
  with d' show ?case
    by (simp del: fun_upd_apply)
qed

lemma entry_mono:
  "\<forall>k. fs' k = fs k \<or> (fs k = None \<and> fs' k = Some Dir) \<Longrightarrow> entry fs k = Some n \<Longrightarrow> entry fs' k = Some n"
  by (auto simp: entry_def split: if_splits) (metis option.distinct(1))

lemma walk_mono:
  "\<forall>k. fs' k = fs k \<or> (fs k = None \<and> fs' k = Some Dir) \<Longrightarrow> walk fs cur cs = Inr k \<Longrightarrow> walk fs' cur cs = Inr k"
proof (induction cs arbitrary: cur)
  case Nil
  then show ?case by simp
next
  case (Cons c cs)
  from Cons.prems(2) have d: "entry fs cur = Some Dir"
    by (auto split: option.splits node.splits)
  from entry_mono[OF Cons.prems(1) d] Cons d show ?case
    by simp
qed

lemma resolve_grows: "grows w w' \<Longrightarrow> resolve w p = Inr k \<Longrightarrow> resolve w' p = Inr k"
  unfolding grows_def resolve_def anchor_def by (auto intro: walk_mono)

lemma stat_grows:
  assumes "grows w w'" and "stat w p = Inr n"
  shows "stat w' p = Inr n"
proof -
  from assms(2) obtain k where k: "resolve w p = Inr k" "entry (files w) k = Some n"
    by (auto simp: stat_def split: sum.splits option.splits)
  from assms(1) k(2) have "entry (files w') k = Some n"
    unfolding grows_def by (auto intro: entry_mono)
  with resolve_grows[OF assms(1) k(1)] show ?thesis
    by (simp add: stat_def)
qed

lemma os_mkdir_grows: "os_mkdir p w = (r, w') \<Longrightarrow> grows w w'"
  by (auto simp: os_mkdir_def grows_def entry_def split: sum.splits option.splits if_splits)

lemma os_mkdir_Inl: "os_mkdir p w = (Inl e, w') \<Longrightarrow> w' = w"
  by (auto simp: os_mkdir_def split: sum.splits option.splits)

lemma os_mkdir_is_dir: "os_mkdir p w = (Inr u, w') \<Longrightarrow> is_dir w' p"
  by (auto simp: os_mkdir_def is_dir_def stat_def resolve_def entry_def walk_upd
           split: sum.splits option.splits if_splits)

lemma mkdir_grows: "mkdir p a b w = (r, w') \<Longrightarrow> grows w w'"
proof (induction p a b w arbitrary: r w' rule: mkdir.induct)
  case (1 p parents exist_ok w)
  obtain r0 w0 where o: "os_mkdir p w = (r0, w0)" by (cases "os_mkdir p w")
  show ?case
  proof (cases r0)
    case (Inr u)
    with o "1.prems" show ?thesis
      by (subst (asm) mkdir.simps) (auto dest: os_mkdir_grows)
  next
    case (Inl e)
    with o have w0: "w0 = w" by (auto dest: os_mkdir_Inl)
    show ?thesis
    proof (cases "e = FileNotFoundError \<and> parents \<and> parent p \<noteq> p")
      case False
      with o Inl w0 "1.prems" show ?thesis
        by (subst (asm) mkdir.simps) (auto simp: grows_refl split: if_splits)
    next
      case True
      obtain r1 w1 where m: "mkdir (parent p) True True w0 = (r1, w1)"
        by (cases "mkdir (parent p) True True w0")
      from True o Inl m have g1: "grows w0 w1"
        by (intro "1.IH"(1)[OF o[symmetric]]) auto
      show ?thesis
      proof (cases r1)
        case (Inl e1)
        with True o \<open>r0 = Inl e\<close> m "1.prems" g1 w0 show ?thesis
          by (subst (asm) mkdir.simps) auto
      next
        case (Inr u1)
        with True o \<open>r0 = Inl e\<close> m "1.prems" have "mkdir p False exist_ok w1 = (r, w')"
          by (subst (asm) mkdir.simps) auto
        with True o \<open>r0 = Inl e\<close> m Inr have "grows w1 w'"
          by (intro "1.IH"(2)[OF o[symmetric]]) auto
        with g1 w0 show ?thesis by (auto intro: grows_trans)
      qed
    qed
  qed
qed

subsection \<open>Creating directories and writing files\<close>

lemma mkdir_is_dir: "mkdir p a b w = (Inr u, w') \<Longrightarrow> is_dir w' p"
proof (induction p a b w arbitrary: u w' rule: mkdir.induct)
  case (1 p parents exist_ok w)
  obtain r0 w0 where o: "os_mkdir p w = (r0, w0)" by (cases "os_mkdir p w")
  show ?case
  proof (cases r0)
    case (Inr u0)
    with o "1.prems" show ?thesis
      by (subst (asm) mkdir.simps) (auto dest: os_mkdir_is_dir)
  next
    case (Inl e)
    with o have w0: "w0 = w" by (auto dest: os_mkdir_Inl)
    show ?thesis
    proof (cases "e = FileNotFoundError \<and> parents \<and> parent p \<noteq> p")
      case False
      with o Inl w0 "1.prems" show ?thesis
        by (subst (asm) mkdir.simps) (auto split: if_splits)
    next
      case True
      obtain r1 w1 where m: "mkdir (parent p) True True w0 = (r1, w1)"
        by (cases "mkdir (parent p) True True w0")
      show ?thesis
      proof (cases r1)
        case (Inl e1)
        with True o \<open>r0 = Inl e\<close> m "1.prems" show ?thesis
          by (subst (asm) mkdir.simps) auto
      next
        case (Inr u1)
        with True o \<open>r0 = Inl e\<close> m "1.prems" have "mkdir p False exist_ok w1 = (Inr u, w')"
          by (subst (asm) mkdir.simps) auto
        with True o \<open>r0 = Inl e\<close> m Inr show ?thesis
          by (intro "1.IH"(2)[OF o[symmetric]]) auto
      qed
    qed
  qed
qed


lemma write_text_Inl: "write_text p d w = (Inl e, w') \<Longrightarrow> w' = w"
  by (auto simp: write_text_def split: sum.splits option.splits node.splits)

lemma write_text_Inr:
  assumes "write_text p d w = (Inr u, w')"
  shows "\<exists>k. resolve w p = Inr k \<and> entry (files w) k \<noteq> Some Dir \<and>
             w' = w\<lparr>files := (files w)(k \<mapsto> File d)\<rparr>"
  using assms by (auto simp: write_text_def split: sum.splits option.splits node.splits)

lemma resolve_upd:
  "resolve w q = Inr k \<Longrightarrow> entry (files w) j \<noteq> Some Dir \<Longrightarrow>
   resolve (w\<lparr>files := (files w)(j \<mapsto> v)\<rparr>) q = Inr k"
  by (simp add: resolve_def walk_upd del: fun_upd_apply)

lemma write_text_stat:
  assumes "write_text p d w = (Inr u, w')"
  shows "stat w' p = Inr (File d)"
proof -
  from write_text_Inr[OF assms] obtain k where
    k: "resolve w p = Inr k" "entry (files w) k \<noteq> Some Dir"
       "w' = w\<lparr>files := (files w)(k \<mapsto> File d)\<rparr>" by blast
  from k(2) have "k \<noteq> []" by (auto simp: entry_def)
  then have "entry (files w') k = Some (File d)" by (simp add: k(3) entry_def)
  with resolve_upd[OF k(1,2), of "File d"] k(3) show ?thesis
    by (simp add: stat_def)
qed

lemma write_text_keeps_dir:
  assumes "write_text p d w = (Inr u, w')" and "is_dir w q"
  shows "is_dir w' q"
proof -
  from write_text_Inr[OF assms(1)] obtain k where
    k: "resolve w p = Inr k" "entry (files w) k \<noteq> Some Dir"
       "w' = w\<lparr>files := (files w)(k \<mapsto> File d)\<rparr>" by blast
  from assms(2) obtain j where j: "resolve w q = Inr j" "entry (files w) j = Some Dir"
    by (auto simp: is_dir_def stat_def split: sum.splits option.splits)
  from j(2) k(2) have "entry (files w') j = Some Dir"
    unfolding k(3) by (simp add: entry_Dir_upd del: fun_upd_apply)
  with resolve_upd[OF j(1) k(2), of "File d"] k(3) show ?thesis
    by (simp add: is_dir_def stat_def)
qed

lemma write_text_frame:
  "write_text p d w = (r, w') \<Longrightarrow> stdout w' = stdout w \<and> cwd w' = cwd w"
  by (auto simp: write_text_def split: sum.splits option.splits node.splits)

lemma walk_errors: "walk fs cur cs = Inl e \<Longrightarrow> e = FileNotFoundError \<or> e = NotADirectoryError"
  by (induction cs arbitrary: cur) (auto split: option.splits node.splits)



lemma resolve_errors: "resolve w p = Inl e \<Longrightarrow> e = FileNotFoundError \<or> e = NotADirectoryError"
  by (auto simp: resolve_def dest: walk_errors)

subsection \<open>The two writers\<close>

lemma write_lean_file_eq: "write_lean_file p w = write_file p lean_content w"
  by (simp add: write_lean_file_def write_file_def)

lemma write_test_file_eq: "write_test_file p m w = write_file p (test_content m) w"
  by (simp add: write_test_file_def write_file_def)

lemma write_file_skip:
  "exists w p \<Longrightarrow>
   write_file p c w = (Inr (), w\<lparr>stdout := stdout w @ [str p @ '' already exists'']\<rparr>)"
  by (simp add: write_file_def print_def)

lemma is_dir_exists: "is_dir w p \<Longrightarrow> exists w p"
  by (auto simp: is_dir_def exists_def split: sum.splits)

lemma stat_stdout [simp]: "stat (w\<lparr>stdout := out\<rparr>) p = stat w p"
  by (simp add: stat_def resolve_def cong: sum.case_cong)

lemma is_dir_stdout [simp]: "is_dir (w\<lparr>stdout := out\<rparr>) p = is_dir w p"
  by (simp add: is_dir_def)

lemma exists_stdout [simp]: "exists (w\<lparr>stdout := out\<rparr>) p = exists w p"
  by (simp add: exists_def)

lemma write_file_created:
  assumes "\<not> exists w p" and "write_file p c w = (Inr u, w')"
  shows "stat w' p = Inr (File c) \<and> stdout w' = stdout w @ [''Created '' @ str p] \<and>
         is_dir w' (parent p)"
proof -
  from assms obtain u1 w1 where m: "mkdir (parent p) True True w = (Inr u1, w1)"
    by (auto simp: write_file_def split: sum.splits prod.splits)
  with assms obtain u2 w2 where t: "write_text p c w1 = (Inr u2, w2)"
    by (auto simp: write_file_def split: sum.splits prod.splits)
  with assms m have w': "w' = w2\<lparr>stdout := stdout w2 @ [''Created '' @ str p]\<rparr>"
    by (auto simp: write_file_def print_def)
  from mkdir_grows[OF m] have "stdout w1 = stdout w" by (simp add: grows_def)
  with write_text_frame[OF t] have "stdout w2 = stdout w" by simp
  moreover from write_text_keeps_dir[OF t mkdir_is_dir[OF m]] have "is_dir w2 (parent p)" .
  ultimately show ?thesis using write_text_stat[OF t] by (simp add: w')
qed



lemma mkdir_errors:
  "mkdir p a b w = (Inl e, w') \<Longrightarrow>
   e = FileNotFoundError \<or> e = NotADirectoryError \<or> e = FileExistsError"
proof (induction p a b w arbitrary: e w' rule: mkdir.induct)
  case (1 p parents exist_ok w)
  obtain r0 w0 where o: "os_mkdir p w = (r0, w0)" by (cases "os_mkdir p w")
  show ?case
  proof (cases r0)
    case (Inr u)
    with o "1.prems" show ?thesis
      by (subst (asm) mkdir.simps) auto
  next
    case (Inl e0)
    with o have w0: "w0 = w" by (auto dest: os_mkdir_Inl)
    from o Inl have e0: "e0 = FileNotFoundError \<or> e0 = NotADirectoryError \<or> e0 = FileExistsError"
      by (auto simp: os_mkdir_def split: sum.splits option.splits dest: resolve_errors)
    show ?thesis
    proof (cases "e0 = FileNotFoundError \<and> parents \<and> parent p \<noteq> p")
      case False
      with o Inl w0 "1.prems" e0 show ?thesis
        by (subst (asm) mkdir.simps) (auto split: if_splits)
    next
      case True
      obtain r1 w1 where m: "mkdir (parent p) True True w = (r1, w1)"
        by (cases "mkdir (parent p) True True w")
      show ?thesis
      proof (cases r1)
        case (Inl e1)
        with True o \<open>r0 = Inl e0\<close> m "1.prems" w0 have "e = e1"
          by (subst (asm) mkdir.simps) auto
        with "1.IH"(1)[OF o[symmetric] \<open>r0 = Inl e0\<close>, of e1 w1] True m w0 Inl show ?thesis
          by auto
      next
        case (Inr u1)
        with True o \<open>r0 = Inl e0\<close> m "1.prems" w0 have "mkdir p False exist_ok w1 = (Inl e, w')"
          by (subst (asm) mkdir.simps) auto
        with "1.IH"(2)[OF o[symmetric] \<open>r0 = Inl e0\<close>, of r1 w1 u1 e w'] True m w0 Inr show ?thesis
          by auto
      qed
    qed
  qed
qed

lemma write_text_errors:
  "write_text p d w = (Inl e, w') \<Longrightarrow>
   e = FileNotFoundError \<or> e = NotADirectoryError \<or> e = IsADirectoryError"
  by (auto simp: write_text_def split: sum.splits option.splits node.splits dest: resolve_errors)

lemma write_file_failed:
  assumes "write_file p c w = (Inl e, w')"
  shows "grows w w' \<and> (\<forall>n. e \<noteq> SystemExit n) \<and> e \<noteq> ValueError"
proof -
  from assms have ne: "\<not> exists w p"
    by (auto simp: write_file_def print_def split: if_splits)
  obtain r1 w1 where m: "mkdir (parent p) True True w = (r1, w1)"
    by (cases "mkdir (parent p) True True w")
  show ?thesis
  proof (cases r1)
    case (Inl e1)
    with assms ne m have "e = e1" "w' = w1" by (auto simp: write_file_def)
    with mkdir_grows[OF m] mkdir_errors[of "parent p" True True w e1 w1] m Inl show ?thesis
      by auto
  next
    case (Inr u1)
    with assms ne m have t: "write_text p c w1 = (Inl e, w')"
      by (auto simp: write_file_def print_def split: sum.splits prod.splits)
    from write_text_Inl[OF t] mkdir_grows[OF m] write_text_errors[OF t] show ?thesis
      by auto
  qed
qed

lemma write_file_returns_exists:
  assumes "write_file p c w = (Inr u, w')"
  shows "exists w' p"
proof (cases "exists w p")
  case True
  with assms write_file_skip[OF True, of c] show ?thesis by auto
next
  case False
  from write_file_created[OF False assms] show ?thesis
    by (simp add: exists_def)
qed

lemma skip_both:
  assumes "exists w p"
  shows "write_lean_file p w = (Inr (), w\<lparr>stdout := stdout w @ [str p @ '' already exists'']\<rparr>) \<and>
         write_test_file p m w = (Inr (), w\<lparr>stdout := stdout w @ [str p @ '' already exists'']\<rparr>)"
  using assms by (simp add: write_lean_file_eq write_test_file_eq write_file_skip)

subsection \<open>The module identifier\<close>

lemma module_identifier_clean: "module_identifier p = Inr m \<Longrightarrow> CHR ''/'' \<notin> set m"
  by (auto simp: module_identifier_def replace_def split: sum.splits)

lemma module_identifier_join:
  assumes "cs \<noteq> []" and "\<forall>c \<in> set cs. component c"
    and "r = [] \<or> r = ''/'' \<or> r = ''//''"
  shows "module_identifier (Path (r @ join ''/'' cs)) =
         Inr (replace r (CHR ''/'') (CHR ''.'') @ join ''.'' (butlast cs @ [stem (last cs)]))"
proof -
  from assms(1) have cs: "butlast cs @ [last cs] = cs" by simp
  from assms(3) have r: "r = [] \<or> r = [sep] \<or> r = [sep, sep]" by (simp add: sep_def)
  have "Path (r @ join [sep] cs) = PurePath r (butlast cs @ [last cs])"
    using Path_join[OF assms(1,2) r] cs by simp
  moreover have "\<forall>c \<in> set (butlast cs @ [last cs]). component c"
    using assms(2) cs by simp
  ultimately show ?thesis
    using module_identifier_parts[of "butlast cs" "last cs" r] by (simp add: sep_def)
qed

subsection \<open>The entry point\<close>


lemma main_unfold:
  assumes "2 \<le> length argv" and "write_lean_file (Path (argv ! 1)) w = (r1, w1)"
  shows "main argv w =
           (if r1 = Inr () \<and> 2 < length argv then
              (case module_identifier (Path (argv ! 1)) of
                 Inl e \<Rightarrow> (Inl e, w1)
               | Inr m \<Rightarrow> write_test_file (Path (argv ! 2)) m w1)
            else (r1, w1))"
  using assms by (cases r1) (auto simp: main_def Let_def)

section \<open>The claims\<close>

subsection \<open>C1: the primary file is created from the template\<close>

text \<open>
  C1, as the code has it. For every path \<open>p\<close> at which nothing exists: when
  \<open>write_lean_file\<close> returns without raising, a regular file is at \<open>p\<close>, its content is
  exactly the template, and exactly the line \<^verbatim>\<open>Created <path>\<close> was added to the output.
  The proviso is needed: \<open>write_lean_file\<close> lets every error of \<^verbatim>\<open>exists\<close>, \<^verbatim>\<open>mkdir\<close>
  and \<^verbatim>\<open>write_text\<close> through.
\<close>

theorem write_lean_file_creates:
  assumes "\<not> exists w p" and "fst (write_lean_file p w) = Inr ()"
  shows "stat (snd (write_lean_file p w)) p =
           Inr (File ''/--\<newline>  TODO: add description.\<newline>-/\<newline>import Mathlib\<newline>\<newline>namespace Thesis\<newline>\<newline>-- TODO: definitions and theorems.\<newline>\<newline>end Thesis\<newline>'') \<and>
         stdout (snd (write_lean_file p w)) = stdout w @ [''Created '' @ str p]"
proof -
  obtain w' where "write_lean_file p w = (Inr (), w')"
    using assms(2) by (cases "write_lean_file p w") auto
  then have "write_file p lean_content w = (Inr (), w')" "snd (write_lean_file p w) = w'"
    by (simp_all add: write_lean_file_eq)
  with write_file_created[OF assms(1), of lean_content "()" w'] show ?thesis
    by (simp add: lean_content_def)
qed

text \<open>
  The theorem at work: \<^verbatim>\<open>Foo.lean\<close> is absent from the sample world, the call returns,
  and the file and the line are there.
\<close>

theorem write_lean_file_creates_witness:
  "\<not> exists sample_world (Path ''Foo.lean'') \<and>
   fst (write_lean_file (Path ''Foo.lean'') sample_world) = Inr () \<and>
   stat (snd (write_lean_file (Path ''Foo.lean'') sample_world)) (Path ''Foo.lean'') =
     Inr (File ''/--\<newline>  TODO: add description.\<newline>-/\<newline>import Mathlib\<newline>\<newline>namespace Thesis\<newline>\<newline>-- TODO: definitions and theorems.\<newline>\<newline>end Thesis\<newline>'') \<and>
   stdout (snd (write_lean_file (Path ''Foo.lean'') sample_world)) = [''Created Foo.lean'']"
proof -
  have h1: "\<not> exists sample_world (Path ''Foo.lean'')" by code_simp
  have h2: "fst (write_lean_file (Path ''Foo.lean'') sample_world) = Inr ()" by code_simp
  have h3: "str (Path ''Foo.lean'') = ''Foo.lean''" by code_simp
  have h4: "stdout sample_world = []" by code_simp
  from write_lean_file_creates[OF h1 h2] h1 h2 show ?thesis
    by (simp add: h3 h4)
qed

text \<open>
  C1 without the proviso fails. In the sample world \<^verbatim>\<open>notes\<close> is a regular file, so
  nothing exists at \<^verbatim>\<open>notes/b.lean\<close>; \<^verbatim>\<open>mkdir\<close> of the parent raises
  \<^verbatim>\<open>FileExistsError\<close>, no file is created and nothing is printed.
\<close>

theorem write_lean_file_blocked:
  "\<not> exists sample_world (Path ''notes/b.lean'') \<and>
   fst (write_lean_file (Path ''notes/b.lean'') sample_world) = Inl FileExistsError \<and>
   stdout (snd (write_lean_file (Path ''notes/b.lean'') sample_world)) = [] \<and>
   \<not> exists (snd (write_lean_file (Path ''notes/b.lean'') sample_world)) (Path ''notes/b.lean'')"
  by code_simp

subsection \<open>C2: an existing entry is never overwritten\<close>

text \<open>
  C2. For every path \<open>p\<close> at which something exists, \<open>write_lean_file\<close> and
  \<open>write_test_file\<close> return with the world they were given, but for the line
  \<^verbatim>\<open><path> already exists\<close> added to the output: no write happens, whatever the content
  of the entry is.
\<close>

theorem never_overwrite:
  assumes "exists w p"
  shows "write_lean_file p w = (Inr (), w\<lparr>stdout := stdout w @ [str p @ '' already exists'']\<rparr>) \<and>
         write_test_file p m w = (Inr (), w\<lparr>stdout := stdout w @ [str p @ '' already exists'']\<rparr>) \<and>
         files (snd (write_lean_file p w)) = files w \<and>
         files (snd (write_test_file p m w)) = files w \<and>
         stat (snd (write_lean_file p w)) p = stat w p \<and>
         stat (snd (write_test_file p m w)) p = stat w p"
  using skip_both[OF assms, of m] by simp

text \<open>
  In the sample world \<^verbatim>\<open>f.lean\<close> holds \<^verbatim>\<open>orig\<close>, which is not the template, and still
  holds it after either call.
\<close>

theorem never_overwrite_witness:
  "exists sample_world (Path ''f.lean'') \<and>
   stat sample_world (Path ''f.lean'') = Inr (File ''orig'') \<and>
   stat (snd (write_lean_file (Path ''f.lean'') sample_world)) (Path ''f.lean'') = Inr (File ''orig'') \<and>
   stat (snd (write_test_file (Path ''f.lean'') ''m'' sample_world)) (Path ''f.lean'') = Inr (File ''orig'') \<and>
   stdout (snd (write_lean_file (Path ''f.lean'') sample_world)) = [''f.lean already exists''] \<and>
   stdout (snd (write_test_file (Path ''f.lean'') ''m'' sample_world)) = [''f.lean already exists'']"
proof -
  have h1: "exists sample_world (Path ''f.lean'')" by code_simp
  have h2: "stat sample_world (Path ''f.lean'') = Inr (File ''orig'')" by code_simp
  have h3: "str (Path ''f.lean'') = ''f.lean''" by code_simp
  have h4: "stdout sample_world = []" by code_simp
  from never_overwrite[OF h1, of "''m''"] h1 h2 show ?thesis
    by (simp add: h3 h4)
qed

subsection \<open>C3: the module identifier\<close>

text \<open>
  C3. The module identifier is a function of the path alone (no world is among the
  arguments of \<open>module_identifier\<close>). For a path string made of components \<open>cs\<close> joined
  by \<^verbatim>\<open>/\<close>, after the root \<open>r\<close> if it is absolute, the identifier is the components joined
  by \<^verbatim>\<open>.\<close>, with the last one cut down to its stem: a last component without a dot
  stays as it is, as in \<^verbatim>\<open>a/b/File\<close> and \<^verbatim>\<open>a.b.File\<close>, and a last component \<^verbatim>\<open>b.e\<close>
  becomes \<open>b\<close>. No \<^verbatim>\<open>/\<close> is left in any identifier.
\<close>

theorem module_identifier_dotted:
  assumes "cs \<noteq> []" and "\<forall>c \<in> set cs. component c"
    and "r = [] \<or> r = ''/'' \<or> r = ''//''"
  shows "module_identifier (Path (r @ join ''/'' cs)) =
           Inr (replace r (CHR ''/'') (CHR ''.'') @ join ''.'' (butlast cs @ [stem (last cs)])) \<and>
         (CHR ''.'' \<notin> set (last cs) \<longrightarrow>
            module_identifier (Path (r @ join ''/'' cs)) =
              Inr (replace r (CHR ''/'') (CHR ''.'') @ join ''.'' cs)) \<and>
         (\<forall>b e. last cs = b @ ''.'' @ e \<and> b \<noteq> [] \<and> e \<noteq> [] \<and> CHR ''.'' \<notin> set e \<longrightarrow>
            module_identifier (Path (r @ join ''/'' cs)) =
              Inr (replace r (CHR ''/'') (CHR ''.'') @ join ''.'' (butlast cs @ [b]))) \<and>
         (\<forall>p m. module_identifier p = Inr m \<longrightarrow> CHR ''/'' \<notin> set m)"
proof -
  from assms(1) have cs: "butlast cs @ [last cs] = cs" by simp
  note j = module_identifier_join[OF assms]
  have 1: "CHR ''.'' \<notin> set (last cs) \<Longrightarrow> butlast cs @ [stem (last cs)] = cs"
    using cs by (simp add: stem_no_dot)
  have 2: "stem (last cs) = b"
    if "last cs = b @ ''.'' @ e" "b \<noteq> []" "e \<noteq> []" "CHR ''.'' \<notin> set e" for b e
    using that stem_ext[of e b] by simp
  from j 1 2 module_identifier_clean show ?thesis
    by auto
qed

theorem module_identifier_dotted_witness:
  "component ''a'' \<and> component ''b'' \<and> component ''File'' \<and> component ''Foo.lean'' \<and>
   module_identifier (Path ''a/b/File'') = Inr ''a.b.File'' \<and>
   module_identifier (Path ''a/b/Foo.lean'') = Inr ''a.b.Foo'' \<and>
   module_identifier (Path ''/a/b/File'') = Inr ''.a.b.File'' \<and>
   CHR ''/'' \<notin> set ''a.b.File''"
proof -
  have c: "component ''a''" "component ''b''" "component ''File''" "component ''Foo.lean''"
    by code_simp+
  have d: "CHR ''.'' \<notin> set ''File''" by simp
  have e: "last [''a'', ''b'', ''Foo.lean''] = ''Foo'' @ ''.'' @ ''lean'' \<and> ''Foo'' \<noteq> [] \<and>
           ''lean'' \<noteq> [] \<and> CHR ''.'' \<notin> set ''lean''" by simp
  from module_identifier_dotted[of "[''a'', ''b'', ''File'']" "[]"] c d
  have 1: "module_identifier (Path ''a/b/File'') = Inr ''a.b.File''"
    by (auto simp: replace_def)
  have "module_identifier (Path ([] @ join ''/'' [''a'', ''b'', ''Foo.lean''])) =
        Inr (replace [] (CHR ''/'') (CHR ''.'') @ join ''.'' (butlast [''a'', ''b'', ''Foo.lean''] @ [''Foo'']))"
  proof -
    have h: "[''a'', ''b'', ''Foo.lean''] \<noteq> []" by simp
    have hc: "\<forall>x \<in> set [''a'', ''b'', ''Foo.lean'']. component x" using c by simp
    have hr: "[] = [] \<or> [] = ''/'' \<or> [] = ''//''" by simp
    from module_identifier_dotted[OF h hc hr] e show ?thesis by blast
  qed
  then have 2: "module_identifier (Path ''a/b/Foo.lean'') = Inr ''a.b.Foo''"
    by (simp add: replace_def)
  from module_identifier_dotted[of "[''a'', ''b'', ''File'']" "''/''"] c d
  have 3: "module_identifier (Path ''/a/b/File'') = Inr ''.a.b.File''"
    by (auto simp: replace_def)
  from module_identifier_dotted[of "[''a'', ''b'', ''File'']" "[]"] c 1
  have 4: "CHR ''/'' \<notin> set ''a.b.File''"
    by fastforce
  from c 1 2 3 4 show ?thesis by blast
qed

subsection \<open>C4: no path argument\<close>

text \<open>
  C4. With no path argument, \<open>main\<close> prints the usage line to the standard output and
  raises \<^verbatim>\<open>SystemExit(1)\<close>: the exit status is 1, and no entry of the file system is
  created or changed.
\<close>

theorem main_usage:
  assumes "length argv < 2"
  shows "main argv w =
           (Inl (SystemExit 1),
            w\<lparr>stdout := stdout w @ [''Usage: new_component.py path/to/File.lean [tests/Path.lean]'']\<rparr>) \<and>
         exit_status (fst (main argv w)) = 1 \<and>
         files (snd (main argv w)) = files w"
  using assms by (simp add: main_def print_def sys_exit_def usage_def exit_status_def)

theorem main_usage_witness:
  "length [''new_component.py''] < 2 \<and>
   fst (main [''new_component.py''] sample_world) = Inl (SystemExit 1) \<and>
   stdout (snd (main [''new_component.py''] sample_world)) =
     [''Usage: new_component.py path/to/File.lean [tests/Path.lean]''] \<and>
   exit_status (fst (main [''new_component.py''] sample_world)) = 1 \<and>
   files (snd (main [''new_component.py''] sample_world)) = files sample_world"
proof -
  have h1: "length [''new_component.py''] < 2" by simp
  have h4: "stdout sample_world = []" by code_simp
  from main_usage[OF h1, of sample_world] show ?thesis
    by (auto simp: h4)
qed

subsection \<open>C5: the content of the test file\<close>

text \<open>
  C5. When \<open>write_test_file\<close> writes (nothing existed at \<open>p\<close>, and the call returns), the
  file at \<open>p\<close> is exactly the import line for the module, an empty line, and the
  comment line that names the module.
\<close>

theorem write_test_file_content:
  assumes "\<not> exists w p" and "fst (write_test_file p m w) = Inr ()"
  shows "stat (snd (write_test_file p m w)) p =
           Inr (File (''import '' @ m @ ''\<newline>\<newline>-- TODO: add tests for '' @ m @ ''.\<newline>'')) \<and>
         stdout (snd (write_test_file p m w)) = stdout w @ [''Created '' @ str p]"
proof -
  obtain w' where "write_test_file p m w = (Inr (), w')"
    using assms(2) by (cases "write_test_file p m w") auto
  then have "write_file p (test_content m) w = (Inr (), w')" "snd (write_test_file p m w) = w'"
    by (simp_all add: write_test_file_eq)
  with write_file_created[OF assms(1), of "test_content m" "()" w'] show ?thesis
    by (simp add: test_content_def)
qed

text \<open>
  For the primary path \<^verbatim>\<open>a/b/Foo.lean\<close> the module is \<^verbatim>\<open>a.b.Foo\<close>, and the test file
  starts with \<^verbatim>\<open>import a.b.Foo\<close>.
\<close>

theorem write_test_file_content_witness:
  "module_identifier (Path ''a/b/Foo.lean'') = Inr ''a.b.Foo'' \<and>
   \<not> exists sample_world (Path ''tests/a/b/Foo.lean'') \<and>
   fst (write_test_file (Path ''tests/a/b/Foo.lean'') ''a.b.Foo'' sample_world) = Inr () \<and>
   stat (snd (write_test_file (Path ''tests/a/b/Foo.lean'') ''a.b.Foo'' sample_world))
        (Path ''tests/a/b/Foo.lean'') =
     Inr (File ''import a.b.Foo\<newline>\<newline>-- TODO: add tests for a.b.Foo.\<newline>'')"
proof -
  have h0: "module_identifier (Path ''a/b/Foo.lean'') = Inr ''a.b.Foo''" by code_simp
  have h1: "\<not> exists sample_world (Path ''tests/a/b/Foo.lean'')" by code_simp
  have h2: "fst (write_test_file (Path ''tests/a/b/Foo.lean'') ''a.b.Foo'' sample_world) = Inr ()"
    by code_simp
  from write_test_file_content[OF h1 h2] h0 h1 h2 show ?thesis
    by simp
qed

subsection \<open>C6: the order of the two writes\<close>

text \<open>
  C6, as the code has it. With at least one path argument \<open>main\<close> runs
  \<open>write_lean_file\<close> on the first. It goes on to \<open>write_test_file\<close>, with the second
  argument and the module identifier of the first, exactly when a second argument is
  there, \<open>write_lean_file\<close> has returned and the identifier could be derived; otherwise
  the run ends where \<open>write_lean_file\<close> or the derivation left it. Once
  \<open>write_lean_file\<close> has returned, something exists at the primary path, and a run that
  fails later leaves that entry and the output as \<open>write_lean_file\<close> left them.
\<close>

theorem main_orchestration:
  assumes "2 \<le> length argv" and "write_lean_file (Path (argv ! 1)) w = (r1, w1)"
  shows "main argv w =
           (if r1 = Inr () \<and> 2 < length argv then
              (case module_identifier (Path (argv ! 1)) of
                 Inl e \<Rightarrow> (Inl e, w1)
               | Inr m \<Rightarrow> write_test_file (Path (argv ! 2)) m w1)
            else (r1, w1)) \<and>
         (r1 = Inr () \<longrightarrow> exists w1 (Path (argv ! 1))) \<and>
         (r1 = Inr () \<and> fst (main argv w) \<noteq> Inr () \<longrightarrow>
            stat (snd (main argv w)) (Path (argv ! 1)) = stat w1 (Path (argv ! 1)) \<and>
            stdout (snd (main argv w)) = stdout w1)"
proof -
  let ?p = "Path (argv ! 1)"
  note u = main_unfold[OF assms]
  have ex: "exists w1 ?p" if "r1 = Inr ()"
    using that assms(2) write_file_returns_exists[of ?p lean_content w "()" w1]
    by (simp add: write_lean_file_eq)
  have keep: "stat (snd (main argv w)) ?p = stat w1 ?p \<and> stdout (snd (main argv w)) = stdout w1"
    if r: "r1 = Inr ()" and f: "fst (main argv w) \<noteq> Inr ()"
  proof (cases "module_identifier ?p")
    case (Inl e)
    with u r f show ?thesis by (auto split: if_splits)
  next
    case (Inr m)
    obtain r2 w2 where t: "write_test_file (Path (argv ! 2)) m w1 = (r2, w2)"
      by (cases "write_test_file (Path (argv ! 2)) m w1")
    with u r f Inr have m: "main argv w = (r2, w2)" and len: "2 < length argv"
      by (auto split: if_splits)
    with f obtain e where "r2 = Inl e" by (cases r2) auto
    with t have "grows w1 w2"
      using write_file_failed[of "Path (argv ! 2)" "test_content m" w1 e w2]
      by (simp add: write_test_file_eq)
    moreover from ex[OF r] obtain n where "stat w1 ?p = Inr n"
      by (auto simp: exists_def split: sum.splits)
    ultimately show ?thesis
      using stat_grows[of w1 w2 ?p n] m by (simp add: grows_def)
  qed
  from u ex keep show ?thesis by blast
qed

text \<open>
  The primary file \<^verbatim>\<open>Foo.lean\<close> is created, the test write under the regular file
  \<^verbatim>\<open>notes\<close> fails, and \<^verbatim>\<open>Foo.lean\<close> is still there.
\<close>

theorem main_orchestration_witness:
  "2 \<le> length [''new_component.py'', ''Foo.lean'', ''notes/t.lean''] \<and>
   fst (write_lean_file (Path ''Foo.lean'') sample_world) = Inr () \<and>
   module_identifier (Path ''Foo.lean'') = Inr ''Foo'' \<and>
   main [''new_component.py'', ''Foo.lean'', ''notes/t.lean''] sample_world =
     write_test_file (Path ''notes/t.lean'') ''Foo''
       (snd (write_lean_file (Path ''Foo.lean'') sample_world)) \<and>
   fst (main [''new_component.py'', ''Foo.lean'', ''notes/t.lean''] sample_world) =
     Inl FileExistsError \<and>
   stat (snd (main [''new_component.py'', ''Foo.lean'', ''notes/t.lean''] sample_world))
        (Path ''Foo.lean'') =
     stat (snd (write_lean_file (Path ''Foo.lean'') sample_world)) (Path ''Foo.lean'') \<and>
   exists (snd (write_lean_file (Path ''Foo.lean'') sample_world)) (Path ''Foo.lean'') \<and>
   stdout (snd (main [''new_component.py'', ''Foo.lean'', ''notes/t.lean''] sample_world)) =
     [''Created Foo.lean'']"
proof -
  let ?argv = "[''new_component.py'', ''Foo.lean'', ''notes/t.lean'']"
  let ?w1 = "snd (write_lean_file (Path ''Foo.lean'') sample_world)"
  have h1: "2 \<le> length ?argv" by simp
  have h0: "fst (write_lean_file (Path ''Foo.lean'') sample_world) = Inr ()" by code_simp
  then have h2: "write_lean_file (Path (?argv ! 1)) sample_world = (Inr (), ?w1)"
    by (simp add: prod_eq_iff)
  have h3: "module_identifier (Path ''Foo.lean'') = Inr ''Foo''" by code_simp
  have h4: "fst (main ?argv sample_world) = Inl FileExistsError" by code_simp
  have h5: "stdout ?w1 = [''Created Foo.lean'']" by code_simp
  from main_orchestration[OF h1 h2] h3 h4
  have "main ?argv sample_world = write_test_file (Path ''notes/t.lean'') ''Foo'' ?w1"
    "exists ?w1 (Path ''Foo.lean'')"
    "stat (snd (main ?argv sample_world)) (Path ''Foo.lean'') = stat ?w1 (Path ''Foo.lean'')"
    "stdout (snd (main ?argv sample_world)) = stdout ?w1"
    by auto
  with h0 h1 h3 h4 h5 show ?thesis
    by simp
qed

text \<open>
  C6 as stated fails: a second argument alone does not bring \<open>write_test_file\<close> about.
  Here the primary write raises, and the run ends with no \<^verbatim>\<open>t.lean\<close> and no line for
  it, although \<open>write_test_file\<close> on that very world would have created the file and
  printed a line.
\<close>

theorem test_stage_not_reached:
  "2 < length [''new_component.py'', ''notes/b.lean'', ''t.lean''] \<and>
   fst (main [''new_component.py'', ''notes/b.lean'', ''t.lean''] sample_world) =
     Inl FileExistsError \<and>
   stdout (snd (main [''new_component.py'', ''notes/b.lean'', ''t.lean''] sample_world)) = [] \<and>
   \<not> exists (snd (main [''new_component.py'', ''notes/b.lean'', ''t.lean''] sample_world))
            (Path ''t.lean'') \<and>
   module_identifier (Path ''notes/b.lean'') = Inr ''notes.b'' \<and>
   fst (write_test_file (Path ''t.lean'') ''notes.b'' sample_world) = Inr () \<and>
   stdout (snd (write_test_file (Path ''t.lean'') ''notes.b'' sample_world)) = [''Created t.lean'']"
  by code_simp

subsection \<open>C7: the exit status\<close>




subsection \<open>C8: the parent directories\<close>



subsection \<open>C9: a directory at the target path\<close>

text \<open>
  C9. When a directory is at the target path, both writers return normally, having
  printed \<^verbatim>\<open><path> already exists\<close> and changed nothing else: the check is
  \<^verbatim>\<open>Path.exists\<close>, which holds of any entry.
\<close>

theorem directory_counts_as_existing:
  assumes "is_dir w p"
  shows "write_lean_file p w = (Inr (), w\<lparr>stdout := stdout w @ [str p @ '' already exists'']\<rparr>) \<and>
         write_test_file p m w = (Inr (), w\<lparr>stdout := stdout w @ [str p @ '' already exists'']\<rparr>)"
  using skip_both[OF is_dir_exists[OF assms], of m] .

theorem directory_counts_as_existing_witness:
  "is_dir sample_world (Path ''docs'') \<and>
   fst (write_lean_file (Path ''docs'') sample_world) = Inr () \<and>
   fst (write_test_file (Path ''docs'') ''m'' sample_world) = Inr () \<and>
   stdout (snd (write_lean_file (Path ''docs'') sample_world)) = [''docs already exists''] \<and>
   stdout (snd (write_test_file (Path ''docs'') ''m'' sample_world)) = [''docs already exists''] \<and>
   is_dir (snd (write_lean_file (Path ''docs'') sample_world)) (Path ''docs'')"
proof -
  have h1: "is_dir sample_world (Path ''docs'')" by code_simp
  have h3: "str (Path ''docs'') = ''docs''" by code_simp
  have h4: "stdout sample_world = []" by code_simp
  from directory_counts_as_existing[OF h1, of "''m''"] h1 show ?thesis
    by (simp add: h3 h4)
qed

subsection \<open>C10: only the last extension is removed\<close>

text \<open>
  C10. A last component \<^verbatim>\<open>b.e\<close>, where \<open>e\<close> has no dot, loses \<^verbatim>\<open>.e\<close> and nothing
  more: the dots of \<open>b\<close> and of the directories \<open>ds\<close> stay. So \<^verbatim>\<open>a/Foo.tar.gz\<close> gives
  \<^verbatim>\<open>a.Foo.tar\<close>, \<^verbatim>\<open>a.b/File.lean\<close> gives \<^verbatim>\<open>a.b.File\<close>, and the two different paths
  \<^verbatim>\<open>a.b/File.lean\<close> and \<^verbatim>\<open>a/b/File.lean\<close> have the same identifier.
\<close>

theorem module_identifier_final_extension:
  assumes "\<forall>c \<in> set ds. component c"
    and "b \<noteq> []" and "CHR ''/'' \<notin> set b"
    and "e \<noteq> []" and "CHR ''.'' \<notin> set e" and "CHR ''/'' \<notin> set e"
  shows "module_identifier (Path (join ''/'' (ds @ [b @ ''.'' @ e]))) = Inr (join ''.'' (ds @ [b])) \<and>
         module_identifier (Path ''a/Foo.tar.gz'') = Inr ''a.Foo.tar'' \<and>
         module_identifier (Path ''a.b/File.lean'') = Inr ''a.b.File'' \<and>
         Path ''a.b/File.lean'' \<noteq> Path ''a/b/File.lean'' \<and>
         module_identifier (Path ''a/b/File.lean'') = module_identifier (Path ''a.b/File.lean'')"
proof -
  have "component (b @ ''.'' @ e)"
    using assms(2-6) by (auto simp: component_def sep_def append_eq_Cons_conv)
  with assms(1) have "\<forall>c \<in> set (ds @ [b @ ''.'' @ e]). component c" by simp
  from module_identifier_join[OF _ this, of "[]"]
  have "module_identifier (Path (join ''/'' (ds @ [b @ ''.'' @ e]))) =
        Inr (join ''.'' (ds @ [stem (b @ ''.'' @ e)]))"
    by (simp add: replace_def)
  then have 1: "module_identifier (Path (join ''/'' (ds @ [b @ ''.'' @ e]))) = Inr (join ''.'' (ds @ [b]))"
    using stem_ext[OF assms(5,2,4)] by simp
  have 2: "module_identifier (Path ''a/Foo.tar.gz'') = Inr ''a.Foo.tar''" by code_simp
  have 3: "module_identifier (Path ''a.b/File.lean'') = Inr ''a.b.File''" by code_simp
  have 4: "Path ''a.b/File.lean'' \<noteq> Path ''a/b/File.lean''" by code_simp
  have 5: "module_identifier (Path ''a/b/File.lean'') = module_identifier (Path ''a.b/File.lean'')"
    by code_simp
  from 1 2 3 4 5 show ?thesis by blast
qed

theorem module_identifier_final_extension_witness:
  "component ''a'' \<and> ''Foo.tar'' \<noteq> [] \<and> CHR ''/'' \<notin> set ''Foo.tar'' \<and> ''gz'' \<noteq> [] \<and>
   CHR ''.'' \<notin> set ''gz'' \<and> CHR ''/'' \<notin> set ''gz'' \<and>
   module_identifier (Path (join ''/'' ([''a''] @ [''Foo.tar'' @ ''.'' @ ''gz'']))) =
     Inr (join ''.'' ([''a''] @ [''Foo.tar'']))"
proof -
  have c: "\<forall>c \<in> set [''a'']. component c" by code_simp
  from module_identifier_final_extension[OF c, of "''Foo.tar''" "''gz''"] c show ?thesis
    by simp
qed

end
